theory Spec2Isabelle
  imports Main "HOL-Library.AList"
begin

section \<open>RushTI: task-file parsing, batch splitting and sequential run model\<close>

text \<open>
  The development embeds \<^verbatim>\<open>RushTI.py\<close>. A Python \<^verbatim>\<open>str\<close> is a
  \<^typ>\<open>string\<close>; a \<^typ>\<open>char\<close> stands for one code point in the range
  U+0000 .. U+00FF, the alphabet on which the string methods below are modelled
  (\<^verbatim>\<open>str.lower\<close> maps this range into itself).
\<close>

subsection \<open>Python string methods\<close>

text \<open>
  \<^verbatim>\<open>str.isspace\<close> on one code point below U+0100: TAB, LF, VT, FF, CR, the
  separators FS, GS, RS, US, the space, NEL and the no-break space.
\<close>

definition py_isspace :: "char \<Rightarrow> bool" where
  "py_isspace c =
     (let n = of_char c :: nat
      in (9 \<le> n \<and> n \<le> 13) \<or> (28 \<le> n \<and> n \<le> 32) \<or> n = 133 \<or> n = 160)"

text \<open>
  \<^verbatim>\<open>str.lower\<close> on one code point below U+0100: the letters A-Z and the
  Latin-1 capitals U+00C0 .. U+00DE (the multiplication sign U+00D7 apart) move up
  by 32, every other code point stays.
\<close>

definition lower_char :: "char \<Rightarrow> char" where
  "lower_char c =
     (let n = of_char c :: nat
      in if (65 \<le> n \<and> n \<le> 90) \<or> (192 \<le> n \<and> n \<le> 222 \<and> n \<noteq> 215)
         then char_of (n + 32) else c)"

definition py_lower :: "string \<Rightarrow> string" where
  "py_lower s = map lower_char s"

text \<open>\<^verbatim>\<open>s.strip(chars)\<close>: drop the leading and the trailing characters of the set.\<close>

definition strip_chars :: "(char \<Rightarrow> bool) \<Rightarrow> string \<Rightarrow> string" where
  "strip_chars P s = rev (dropWhile P (rev (dropWhile P s)))"

definition py_strip :: "string \<Rightarrow> string" where
  "py_strip s = strip_chars py_isspace s"

text \<open>\<^verbatim>\<open>s.split(sep)\<close> for a separator of one character: never an empty list.\<close>

fun py_split :: "char \<Rightarrow> string \<Rightarrow> string list" where
  "py_split sep [] = [[]]"
| "py_split sep (c # cs) =
     (if c = sep then [] # py_split sep cs
      else (case py_split sep cs of
              [] \<Rightarrow> [[c]]
            | p # ps \<Rightarrow> (c # p) # ps))"

text \<open>
  \<^verbatim>\<open>str.isdigit\<close>: a non-empty string of digit characters; below U+0100 these are
  0-9 and the superscripts two, three and one (U+00B2, U+00B3, U+00B9).
\<close>

definition digit_char :: "char \<Rightarrow> bool" where
  "digit_char c =
     (let n = of_char c :: nat
      in (48 \<le> n \<and> n \<le> 57) \<or> n = 178 \<or> n = 179 \<or> n = 185)"

definition py_isdigit :: "string \<Rightarrow> bool" where
  "py_isdigit s = (s \<noteq> [] \<and> list_all digit_char s)"

subsection \<open>Splitting the lines into blocks\<close>

text \<open>
  \<^verbatim>\<open>itertools.groupby(iterable, key)\<close>: one pair (key, group) for every maximal
  stretch of consecutive items with the same key, in order.
\<close>

function groupby :: "('a \<Rightarrow> 'k) \<Rightarrow> 'a list \<Rightarrow> ('k \<times> 'a list) list" where
  "groupby key [] = []"
| "groupby key (x # xs) =
     (key x, x # takeWhile (\<lambda>y. key y = key x) xs)
       # groupby key (dropWhile (\<lambda>y. key y = key x) xs)"
  by pat_completeness auto
termination
  by (relation "measure (\<lambda>(key, xs). length xs)")
     (auto simp: length_dropWhile_le less_Suc_eq_le)

text \<open>The key of line 141: \<^verbatim>\<open>z.lower().strip() == 'wait'\<close>.\<close>

definition is_wait :: "string \<Rightarrow> bool" where
  "is_wait z = (py_strip (py_lower z) = ''wait'')"

text \<open>
  \<^verbatim>\<open>[list(y) for x, y in itertools.groupby(lines, ...) if not x]\<close>
\<close>

definition line_sets :: "string list \<Rightarrow> string list list" where
  "line_sets lines = map snd (filter (\<lambda>(x, y). \<not> x) (groupby is_wait lines))"

subsection \<open>Exceptions\<close>

text \<open>
  Every exception the modelled code can raise is a value:
  \<^item> \<open>NoClosingQuotation\<close>, \<open>NoEscapedCharacter\<close>: the two \<^verbatim>\<open>ValueError\<close>s of
    \<^verbatim>\<open>shlex\<close>;
  \<^item> \<open>UnpackError n\<close>: the \<^verbatim>\<open>ValueError\<close> of \<^verbatim>\<open>param, value = pair.split("=")\<close>
    when the split has \<open>n \<noteq> 2\<close> parts;
  \<^item> \<open>KeyError k\<close>: \<^verbatim>\<open>dict.pop(k)\<close> on a missing key;
  \<^item> \<open>InvalidLiteral s\<close>: the \<^verbatim>\<open>ValueError\<close> of \<^verbatim>\<open>int(s)\<close>;
  \<^item> \<open>MaxWorkersError\<close>: \<^verbatim>\<open>ValueError("max_workers must be greater than 0")\<close> of
    \<^verbatim>\<open>ThreadPoolExecutor\<close>;
  \<^item> \<open>TooFewArguments\<close>, \<open>FileInvalid\<close>, \<open>MaxWorkersInvalid\<close>: the three
    \<^verbatim>\<open>ValueError\<close>s of \<^verbatim>\<open>translate_cmd_arguments\<close>;
  \<^item> \<open>SetupError m\<close>: an exception out of \<^verbatim>\<open>setup_tm1_services\<close>;
  \<^item> \<open>FileError m\<close>: an exception out of \<^verbatim>\<open>open(path)\<close> or \<^verbatim>\<open>readlines()\<close>;
  \<^item> \<open>LogoutError m\<close>: an exception out of \<^verbatim>\<open>tm1.logout()\<close>.
\<close>

datatype exn =
    NoClosingQuotation
  | NoEscapedCharacter
  | UnpackError nat
  | KeyError string
  | InvalidLiteral string
  | MaxWorkersError
  | TooFewArguments
  | FileInvalid
  | MaxWorkersInvalid
  | SetupError string
  | FileError string
  | LogoutError string

subsection \<open>\<^verbatim>\<open>shlex.split\<close>\<close>

text \<open>
  \<^verbatim>\<open>shlex.split(line)\<close> is \<^verbatim>\<open>list(lex)\<close> for a POSIX-mode lexer with
  \<^verbatim>\<open>whitespace_split = True\<close>, no commenters and no punctuation characters. The
  lexer's \<^verbatim>\<open>read_token\<close> is a character-driven state machine; its \<^verbatim>\<open>state\<close> is
  \<^verbatim>\<open>' '\<close> (between tokens), \<^verbatim>\<open>'a'\<close> (in a word), a quote character (inside
  quotes) or the escape character (after a backslash, with \<^verbatim>\<open>escapedstate\<close> the
  state to return to).
\<close>

datatype lex_state = Space | Word | Quote char | Escape char lex_state

definition shlex_whitespace :: "char \<Rightarrow> bool" where
  "shlex_whitespace c = (c = CHR '' '' \<or> c = CHR 0x09 \<or> c = CHR 0x0D \<or> c = CHR 0x0A)"

definition shlex_quotes :: "char \<Rightarrow> bool" where
  "shlex_quotes c = (c = CHR 0x27 \<or> c = CHR 0x22)"

definition shlex_escape :: "char \<Rightarrow> bool" where
  "shlex_escape c = (c = CHR 0x5C)"

definition shlex_escapedquotes :: "char \<Rightarrow> bool" where
  "shlex_escapedquotes c = (c = CHR 0x22)"

text \<open>
  \<open>read_tokens state token quoted acc input\<close> runs \<^verbatim>\<open>read_token\<close> again and again
  over the rest of the input: \<open>token\<close> and \<open>quoted\<close> are the variables of the call
  in progress, \<open>acc\<close> the tokens already returned. A call returns its token when it
  breaks out of the loop with \<^verbatim>\<open>self.token or (self.posix and quoted)\<close>; at the
  end of the input an empty unquoted token is \<^verbatim>\<open>None\<close> and ends the iteration.
  In state \<^verbatim>\<open>' '\<close> and in state \<^verbatim>\<open>'a'\<close> the branches for \<^verbatim>\<open>wordchars\<close> and for
  \<^verbatim>\<open>whitespace_split\<close> do the same, so they are one branch here.
\<close>

fun read_tokens :: "lex_state \<Rightarrow> string \<Rightarrow> bool \<Rightarrow> string list \<Rightarrow> string \<Rightarrow> exn + string list" where
  "read_tokens Space token quoted acc [] =
     Inr (if token \<noteq> [] \<or> quoted then acc @ [token] else acc)"
| "read_tokens Word token quoted acc [] =
     Inr (if token \<noteq> [] \<or> quoted then acc @ [token] else acc)"
| "read_tokens (Quote q) token quoted acc [] = Inl NoClosingQuotation"
| "read_tokens (Escape e es) token quoted acc [] = Inl NoEscapedCharacter"
| "read_tokens Space token quoted acc (c # cs) =
     (if shlex_whitespace c then
        (if token \<noteq> [] \<or> quoted then read_tokens Space [] False (acc @ [token]) cs
         else read_tokens Space token quoted acc cs)
      else if shlex_escape c then read_tokens (Escape c Word) token quoted acc cs
      else if shlex_quotes c then read_tokens (Quote c) token quoted acc cs
      else read_tokens Word [c] quoted acc cs)"
| "read_tokens (Quote q) token quoted acc (c # cs) =
     (if c = q then read_tokens Word token True acc cs
      else if shlex_escape c \<and> shlex_escapedquotes q
        then read_tokens (Escape c (Quote q)) token True acc cs
      else read_tokens (Quote q) (token @ [c]) True acc cs)"
| "read_tokens (Escape e es) token quoted acc (c # cs) =
     (let token' = (case es of
                      Quote q \<Rightarrow> if c \<noteq> e \<and> c \<noteq> q then token @ [e] else token
                    | _ \<Rightarrow> token)
      in read_tokens es (token' @ [c]) quoted acc cs)"
| "read_tokens Word token quoted acc (c # cs) =
     (if shlex_whitespace c then
        (if token \<noteq> [] \<or> quoted then read_tokens Space [] False (acc @ [token]) cs
         else read_tokens Space token quoted acc cs)
      else if shlex_quotes c then read_tokens (Quote c) token quoted acc cs
      else if shlex_escape c then read_tokens (Escape c Word) token quoted acc cs
      else read_tokens Word (token @ [c]) quoted acc cs)"

definition shlex_split :: "string \<Rightarrow> exn + string list" where
  "shlex_split line = read_tokens Space [] False [] line"

subsection \<open>\<^verbatim>\<open>extract_info_from_line\<close>\<close>

text \<open>
  The dictionary \<^verbatim>\<open>parameters\<close> is an association list in insertion order:
  \<^verbatim>\<open>d[k] = v\<close> is \<^const>\<open>AList.update\<close> (an existing key keeps its place, a new one
  goes to the end), \<^verbatim>\<open>d.pop(k)\<close> returns the value and deletes the key, or raises
  \<^verbatim>\<open>KeyError\<close>.
\<close>

type_synonym params = "(string \<times> string) list"

definition dict_pop :: "string \<Rightarrow> params \<Rightarrow> exn + (string \<times> params)" where
  "dict_pop k d =
     (case map_of d k of
        None \<Rightarrow> Inl (KeyError k)
      | Some v \<Rightarrow> Inr (v, AList.delete k d))"

text \<open>\<^verbatim>\<open>value.strip('"').strip()\<close>\<close>

definition strip_value :: "string \<Rightarrow> string" where
  "strip_value v = py_strip (strip_chars (\<lambda>c. c = CHR 0x22) v)"

text \<open>The loop of lines 74 to 81 over the tokens, with the dictionary as accumulator.\<close>

fun add_pairs :: "string list \<Rightarrow> params \<Rightarrow> exn + params" where
  "add_pairs [] parameters = Inr parameters"
| "add_pairs (pair # pairs) parameters =
     (case py_split CHR ''='' pair of
        [param, v] \<Rightarrow>
          (if py_lower param = ''process'' \<or> py_lower param = ''instance''
           then add_pairs pairs (AList.update (py_lower param) (strip_value v) parameters)
           else add_pairs pairs (AList.update param (strip_value v) parameters))
      | parts \<Rightarrow> Inl (UnpackError (length parts)))"

definition extract_info_from_line :: "string \<Rightarrow> exn + (string \<times> string \<times> params)" where
  "extract_info_from_line line =
     (case shlex_split line of
        Inl e \<Rightarrow> Inl e
      | Inr pairs \<Rightarrow>
          (case add_pairs pairs [] of
             Inl e \<Rightarrow> Inl e
           | Inr parameters \<Rightarrow>
               (case dict_pop ''instance'' parameters of
                  Inl e \<Rightarrow> Inl e
                | Inr (instance_name, parameters1) \<Rightarrow>
                    (case dict_pop ''process'' parameters1 of
                       Inl e \<Rightarrow> Inl e
                     | Inr (process_name, parameters2) \<Rightarrow>
                         Inr (instance_name, process_name, parameters2)))))"

subsection \<open>\<^verbatim>\<open>execute_line\<close>\<close>

text \<open>
  A connected \<^verbatim>\<open>TM1Service\<close> is known by what its calls do. \<open>execute tm1 p ps\<close> is
  the outcome of the expression
  \<^verbatim>\<open>tm1.processes.execute(process_name=p, **ps)\<close> followed by the read of
  \<^verbatim>\<open>response.elapsed\<close>: \<open>Raised m\<close> when an \<^verbatim>\<open>Exception\<close> \<open>e\<close> with
  \<^verbatim>\<open>str(e) = m\<close> comes out of it, \<open>Elapsed t\<close> when it returns a response with that
  elapsed time. \<open>logout_raises tm1\<close> is \<open>None\<close> when \<^verbatim>\<open>tm1.logout()\<close> returns and
  \<open>Some m\<close> when it raises.
\<close>

datatype response = Raised string | Elapsed nat

record tm1_service =
  execute :: "string \<Rightarrow> params \<Rightarrow> response"
  logout_raises :: "string option"

text \<open>The dictionary \<^verbatim>\<open>tm1_services\<close>, in insertion order.\<close>

type_synonym tm1_services = "(string \<times> tm1_service) list"

text \<open>
  What one task does, as a list of events: the log records it writes (level and the
  fields its message is formatted from) and the remote call it issues.
  \<^item> \<open>NotAccessible p i\<close>:
    \<^verbatim>\<open>"Process {p} not executed on {i}. {i} not accessible."\<close>
  \<^item> \<open>Executing p ps i\<close>:
    \<^verbatim>\<open>"Executing process: {p} with Parameters: {ps} on instance: {i}"\<close>
  \<^item> \<open>ExecutionSuccessful p ps i t\<close>:
    \<^verbatim>\<open>"Execution Successful: {p} with Parameters: {ps} on instance: {i}. Elapsed time: {t}"\<close>
  \<^item> \<open>ExecutionFailed p ps m\<close>:
    \<^verbatim>\<open>"Execution Failed. Process: {p}, Parameters: {ps}, Error: {m}"\<close>
\<close>

datatype log_msg =
    NotAccessible string string
  | Executing string params string
  | ExecutionSuccessful string params string nat
  | ExecutionFailed string params string

datatype level = INFO | ERROR

datatype event = Log level log_msg | Call string string params

definition execute_line :: "string \<Rightarrow> tm1_services \<Rightarrow> exn + event list" where
  "execute_line line tm1_services =
     (if length (py_strip line) = 0 then Inr []
      else
        (case extract_info_from_line line of
           Inl e \<Rightarrow> Inl e
         | Inr (instance_name, process_name, parameters) \<Rightarrow>
             (case map_of tm1_services instance_name of
                None \<Rightarrow> Inr [Log ERROR (NotAccessible process_name instance_name)]
              | Some tm1 \<Rightarrow>
                  Inr ([Log INFO (Executing process_name parameters instance_name),
                        Call instance_name process_name parameters] @
                       (case execute tm1 process_name parameters of
                          Elapsed t \<Rightarrow>
                            [Log INFO (ExecutionSuccessful process_name parameters instance_name t)]
                        | Raised m \<Rightarrow>
                            [Log ERROR (ExecutionFailed process_name parameters m)])))))"

subsection \<open>\<^verbatim>\<open>work_through_tasks\<close>\<close>

text \<open>
  \<^verbatim>\<open>int(max_workers)\<close> on a string that \<^verbatim>\<open>isdigit\<close> has let through (line 180 is
  the only source of \<^verbatim>\<open>max_workers\<close>): the decimal value when every character is
  one of 0-9, a \<^verbatim>\<open>ValueError\<close> for the superscript digits.
\<close>

definition decimal_char :: "char \<Rightarrow> bool" where
  "decimal_char c = (let n = of_char c :: nat in 48 \<le> n \<and> n \<le> 57)"

definition py_int :: "string \<Rightarrow> exn + nat" where
  "py_int s =
     (if s \<noteq> [] \<and> list_all decimal_char s
      then Inr (foldl (\<lambda>n c. 10 * n + (of_char c - 48)) 0 s)
      else Inl (InvalidLiteral s))"

text \<open>
  \<^verbatim>\<open>ThreadPoolExecutor(max_workers=int(max_workers))\<close>: the constructor raises
  \<^verbatim>\<open>ValueError\<close> unless the number is positive.
\<close>

definition thread_pool_executor :: "string \<Rightarrow> exn + nat" where
  "thread_pool_executor max_workers =
     (case py_int max_workers of
        Inl e \<Rightarrow> Inl e
      | Inr n \<Rightarrow> if n \<le> 0 then Inl MaxWorkersError else Inr n)"

text \<open>
  \<^verbatim>\<open>for future in futures: await future\<close>: the first future, in the order of the
  lines, that holds an exception raises it.
\<close>

fun await_futures :: "(exn + 'a) list \<Rightarrow> exn option" where
  "await_futures [] = None"
| "await_futures (Inl e # futures) = Some e"
| "await_futures (Inr r # futures) = await_futures futures"

text \<open>
  The loop of lines 143 to 149 over the blocks. Every line of a block is submitted to
  the pool when the list of futures is built, and leaving the \<^verbatim>\<open>with\<close> statement
  shuts the pool down waiting for all of them, so each line of a block that was entered
  has its result, whether or not an \<^verbatim>\<open>await\<close> raised. The result of the loop is the
  list of the blocks entered, each with the results of its lines in the order of the
  lines (what each task did; how the tasks of one block interleave in time is not part
  of the result), and the exception that ended the loop, if one did.
\<close>

fun run_line_sets ::
  "string \<Rightarrow> tm1_services \<Rightarrow> string list list \<Rightarrow> (exn + event list) list list \<times> exn option" where
  "run_line_sets max_workers tm1_services [] = ([], None)"
| "run_line_sets max_workers tm1_services (line_set # rest) =
     (case thread_pool_executor max_workers of
        Inl e \<Rightarrow> ([], Some e)
      | Inr n \<Rightarrow>
          (let futures = map (\<lambda>line. execute_line line tm1_services) line_set
           in case await_futures futures of
                Some e \<Rightarrow> ([futures], Some e)
              | None \<Rightarrow>
                  (case run_line_sets max_workers tm1_services rest of
                     (blocks, r) \<Rightarrow> (futures # blocks, r))))"

text \<open>
  The environment of a run: \<^verbatim>\<open>os.path.isfile\<close>, the outcome of \<^verbatim>\<open>open(path)\<close>
  with \<^verbatim>\<open>file.readlines()\<close>, and the outcome of \<^verbatim>\<open>setup_tm1_services()\<close> (reading
  the configuration and connecting are outside the model).
\<close>

record env =
  isfile :: "string \<Rightarrow> bool"
  readlines :: "string \<Rightarrow> exn + string list"
  setup_tm1_services :: "exn + tm1_services"

definition work_through_tasks ::
  "env \<Rightarrow> string \<Rightarrow> string \<Rightarrow> tm1_services \<Rightarrow> (exn + event list) list list \<times> exn option" where
  "work_through_tasks ev path max_workers tm1_services =
     (case readlines ev path of
        Inl e \<Rightarrow> ([], Some e)
      | Inr lines \<Rightarrow> run_line_sets max_workers tm1_services (line_sets lines))"

subsection \<open>\<^verbatim>\<open>logout\<close>, \<^verbatim>\<open>translate_cmd_arguments\<close> and the main block\<close>

text \<open>
  \<^verbatim>\<open>for tm1 in tm1_services.values(): tm1.logout()\<close>: the names of the instances
  whose \<^verbatim>\<open>logout\<close> was invoked, in order, and the exception that ended the loop, if
  one did.
\<close>

fun logout :: "tm1_services \<Rightarrow> string list \<times> exn option" where
  "logout [] = ([], None)"
| "logout ((name, tm1) # rest) =
     (case logout_raises tm1 of
        Some m \<Rightarrow> ([name], Some (LogoutError m))
      | None \<Rightarrow> (case logout rest of (names, r) \<Rightarrow> (name # names, r)))"

text \<open>\<^verbatim>\<open>translate_cmd_arguments(*args)\<close>; \<open>args\<close> is \<^verbatim>\<open>sys.argv\<close>.\<close>

definition translate_cmd_arguments :: "env \<Rightarrow> string list \<Rightarrow> exn + (string \<times> string)" where
  "translate_cmd_arguments ev args =
     (if length args < 3 then Inl TooFewArguments
      else if \<not> isfile ev (args ! 1) then Inl FileInvalid
      else if \<not> py_isdigit (args ! 2) then Inl MaxWorkersInvalid
      else Inr (args ! 1, args ! 2))"

text \<open>
  The main block, lines 188 to 208. Its result records the registry if it was built,
  the blocks that ran, the instances on which \<^verbatim>\<open>logout\<close> was invoked, and the
  exception the process ends with, if any. An exception raised inside the
  \<^verbatim>\<open>finally\<close> clause replaces the one that was propagating.
\<close>

record run =
  registry :: "tm1_services option"
  blocks :: "(exn + event list) list list"
  logged_out :: "string list"
  raised :: "exn option"

definition main :: "env \<Rightarrow> string list \<Rightarrow> run" where
  "main ev argv =
     (case translate_cmd_arguments ev argv of
        Inl e \<Rightarrow> \<lparr>registry = None, blocks = [], logged_out = [], raised = Some e\<rparr>
      | Inr (path_to_file, max_workers) \<Rightarrow>
          (case setup_tm1_services ev of
             Inl e \<Rightarrow> \<lparr>registry = None, blocks = [], logged_out = [], raised = Some e\<rparr>
           | Inr tm1_services \<Rightarrow>
               (case work_through_tasks ev path_to_file max_workers tm1_services of
                  (bs, r1) \<Rightarrow>
                    (case logout tm1_services of
                       (names, r2) \<Rightarrow>
                         \<lparr>registry = Some tm1_services, blocks = bs, logged_out = names,
                          raised = (case r2 of Some e \<Rightarrow> Some e | None \<Rightarrow> r1)\<rparr>))))"

subsection \<open>Notions the properties are stated with\<close>

text \<open>A blank line: the test \<^verbatim>\<open>len(line.strip()) == 0\<close> of line 94.\<close>

definition is_blank :: "string \<Rightarrow> bool" where
  "is_blank line = (length (py_strip line) = 0)"

text \<open>
  The number of maximal runs of consecutive elements with the property \<open>P\<close>: an element
  with \<open>P\<close> opens a run, which takes in the elements with \<open>P\<close> that follow it.
\<close>

function count_runs :: "('a \<Rightarrow> bool) \<Rightarrow> 'a list \<Rightarrow> nat" where
  "count_runs P [] = 0"
| "count_runs P (x # xs) =
     (if P x then Suc (count_runs P (dropWhile P xs)) else count_runs P xs)"
  by pat_completeness auto
termination
  by (relation "measure (\<lambda>(P, xs). length xs)")
     (auto simp: length_dropWhile_le less_Suc_eq_le)

text \<open>A line that is neither a barrier nor blank.\<close>

definition task_line :: "string \<Rightarrow> bool" where
  "task_line z = (\<not> is_wait z \<and> \<not> is_blank z)"


text \<open>A token of the form key=value, with exactly one equals sign.\<close>

definition kv :: "string \<Rightarrow> (string \<times> string) option" where
  "kv pair = (case py_split CHR ''='' pair of [param, v] \<Rightarrow> Some (param, v) | _ \<Rightarrow> None)"

text \<open>
  The key under which lines 77 to 81 store a token: lower case for the two keys that
  are matched without regard to case, the key as written otherwise.
\<close>

definition stored_key :: "string \<Rightarrow> string" where
  "stored_key param =
     (if py_lower param = ''process'' \<or> py_lower param = ''instance''
      then py_lower param else param)"

text \<open>A call that returned: its result is a value, not an exception.\<close>

definition returns :: "exn + 'a \<Rightarrow> bool" where
  "returns r = (\<not> isl r)"

subsection \<open>Example services, environments and files\<close>

text \<open>
  Concrete inputs for the examples below: a service whose processes all run, one whose
  processes all fail, one whose \<^verbatim>\<open>logout\<close> raises; an environment in which
  \<^verbatim>\<open>tasks.txt\<close> is the only file, holds the given lines, and the configuration
  yields the given services; a command line; a task file whose first line lacks the
  key \<^verbatim>\<open>instance\<close>.
\<close>

definition always_elapsed :: "string \<Rightarrow> params \<Rightarrow> response" where
  "always_elapsed p ps = Elapsed 0"

definition always_raised :: "string \<Rightarrow> params \<Rightarrow> response" where
  "always_raised p ps = Raised ''process not found''"

definition tm1_ok :: tm1_service where
  "tm1_ok = \<lparr>execute = always_elapsed, logout_raises = None\<rparr>"

definition tm1_failing :: tm1_service where
  "tm1_failing = \<lparr>execute = always_raised, logout_raises = None\<rparr>"

definition tm1_stale :: tm1_service where
  "tm1_stale = \<lparr>execute = always_elapsed, logout_raises = Some ''session expired''\<rparr>"

definition example_env :: "string list \<Rightarrow> tm1_services \<Rightarrow> env" where
  "example_env lines svcs =
     \<lparr>isfile = (\<lambda>path. path = ''tasks.txt''),
      readlines = (\<lambda>path. Inr lines),
      setup_tm1_services = Inr svcs\<rparr>"

definition example_argv :: "string \<Rightarrow> string list" where
  "example_argv max_workers = [''RushTI.py'', ''tasks.txt'', max_workers]"

definition missing_instance_file :: "string list" where
  \<open>missing_instance_file =
     [''process="P1"\<newline>'', ''wait\<newline>'', ''instance="A" process="P2"\<newline>'']\<close>

section \<open>Properties\<close>

subsection \<open>The blocks of lines\<close>

lemma groupby_nonempty: "(k, g) \<in> set (groupby key xs) \<Longrightarrow> g \<noteq> []"
  by (induction key xs rule: groupby.induct) auto

lemma line_sets_Nil: "line_sets [] = []"
  by (simp add: line_sets_def)

lemma line_sets_drop_waits: "line_sets (dropWhile is_wait xs) = line_sets xs"
proof (cases xs)
  case Nil
  then show ?thesis by simp
next
  case (Cons y ys)
  then show ?thesis by (cases "is_wait y") (simp_all add: line_sets_def)
qed

lemma line_sets_wait: "is_wait x \<Longrightarrow> line_sets (x # xs) = line_sets xs"
  using line_sets_drop_waits [of xs] by (simp add: line_sets_def)

lemma line_sets_task:
  "\<not> is_wait x \<Longrightarrow> line_sets (x # xs) =
     (x # takeWhile (\<lambda>z. \<not> is_wait z) xs) # line_sets (dropWhile (\<lambda>z. \<not> is_wait z) xs)"
  by (simp add: line_sets_def)

lemma line_sets_no_empty: "[] \<notin> set (line_sets lines)"
  by (auto simp: line_sets_def dest: groupby_nonempty)

lemma filter_take_drop:
  "filter P xs = takeWhile P xs @ filter P (dropWhile P xs)"
  by (induction xs) auto

lemma line_sets_concat: "concat (line_sets lines) = filter (\<lambda>z. \<not> is_wait z) lines"
proof (induction "length lines" arbitrary: lines rule: less_induct)
  case less
  show ?case
  proof (cases lines)
    case Nil
    then show ?thesis by (simp add: line_sets_Nil)
  next
    case (Cons x xs)
    show ?thesis
    proof (cases "is_wait x")
      case True
      with Cons less show ?thesis by (simp add: line_sets_wait)
    next
      case False
      have "length (dropWhile (\<lambda>z. \<not> is_wait z) xs) < length lines"
        using Cons by (simp add: length_dropWhile_le less_Suc_eq_le)
      from less [OF this] have
        "concat (line_sets (dropWhile (\<lambda>z. \<not> is_wait z) xs)) =
         filter (\<lambda>z. \<not> is_wait z) (dropWhile (\<lambda>z. \<not> is_wait z) xs)" .
      then show ?thesis
        using Cons False filter_take_drop [of "\<lambda>z. \<not> is_wait z" xs]
        by (simp add: line_sets_task)
    qed
  qed
qed

lemma line_sets_length: "length (line_sets lines) = count_runs (\<lambda>z. \<not> is_wait z) lines"
proof (induction "length lines" arbitrary: lines rule: less_induct)
  case less
  show ?case
  proof (cases lines)
    case Nil
    then show ?thesis by (simp add: line_sets_Nil)
  next
    case (Cons x xs)
    show ?thesis
    proof (cases "is_wait x")
      case True
      with Cons less show ?thesis by (simp add: line_sets_wait)
    next
      case False
      have "length (dropWhile (\<lambda>z. \<not> is_wait z) xs) < length lines"
        using Cons by (simp add: length_dropWhile_le less_Suc_eq_le)
      from less [OF this] show ?thesis using Cons False by (simp add: line_sets_task)
    qed
  qed
qed

lemma isspace_lower: "py_isspace (lower_char c) = py_isspace c"
  by (auto simp: py_isspace_def lower_char_def Let_def)

lemma strip_lower: "py_strip (py_lower z) = py_lower (py_strip z)"
  by (simp add: py_strip_def strip_chars_def py_lower_def dropWhile_map rev_map comp_def
      isspace_lower)

lemma takeWhile_stop: "\<not> P w \<Longrightarrow> takeWhile P (xs @ w # zs) = takeWhile P xs"
  by (induction xs) auto

lemma dropWhile_stop: "\<not> P w \<Longrightarrow> dropWhile P (xs @ w # zs) = dropWhile P xs @ w # zs"
  by (induction xs) auto

lemma line_sets_barrier:
  assumes "is_wait w"
  shows "line_sets (xs @ w # ys) = line_sets xs @ line_sets ys"
proof (induction "length xs" arbitrary: xs rule: less_induct)
  case less
  show ?case
  proof (cases xs)
    case Nil
    then show ?thesis using assms by (simp add: line_sets_wait line_sets_Nil)
  next
    case (Cons x xs')
    show ?thesis
    proof (cases "is_wait x")
      case True
      with Cons less show ?thesis by (simp add: line_sets_wait)
    next
      case False
      have "length (dropWhile (\<lambda>z. \<not> is_wait z) xs') < length xs"
        using Cons by (simp add: length_dropWhile_le less_Suc_eq_le)
      from less [OF this] show ?thesis using Cons False assms
        by (simp add: line_sets_task takeWhile_stop dropWhile_stop)
    qed
  qed
qed

lemma line_sets_single:
  assumes "xs \<noteq> []" and nowait: "list_all (\<lambda>z. \<not> is_wait z) xs"
  shows "line_sets xs = [xs]"
proof (cases xs)
  case Nil
  with assms show ?thesis by simp
next
  case (Cons x xs')
  from nowait have x: "\<not> is_wait x" and all: "\<forall>z\<in>set xs'. \<not> is_wait z"
    using Cons by (simp_all add: list_all_iff)
  have tw: "takeWhile (\<lambda>z. \<not> is_wait z) xs' = xs'"
    and dw: "dropWhile (\<lambda>z. \<not> is_wait z) xs' = []"
    using all by simp_all
  show ?thesis unfolding Cons line_sets_task [OF x] tw dw line_sets_Nil ..
qed

lemma count_runs_cong:
  "list_all (\<lambda>x. P x = Q x) xs \<Longrightarrow> count_runs P xs = count_runs Q xs"
proof (induction "length xs" arbitrary: xs rule: less_induct)
  case less
  show ?case
  proof (cases xs)
    case Nil
    then show ?thesis by simp
  next
    case (Cons x xs')
    have eq: "dropWhile P xs' = dropWhile Q xs'"
      using less.prems Cons by (intro dropWhile_cong) (auto simp: list_all_iff)
    have len: "length (dropWhile Q xs') < length xs"
      using Cons by (simp add: length_dropWhile_le less_Suc_eq_le)
    have "list_all (\<lambda>x. P x = Q x) (dropWhile Q xs')"
      using less.prems Cons by (auto simp: list_all_iff dest: set_dropWhileD)
    from less.hyps [OF len this] less.hyps [of xs'] less.prems Cons eq
    show ?thesis by simp
  qed
qed

text \<open>
  C3, as the code has it: the number of blocks is the number of maximal runs of lines
  that are not barrier lines. A blank line is an ordinary line of its run: it does not
  separate two runs and it is not left out, so a run of blank lines alone is a block
  too. No block without lines is ever produced. Where no line of the input is blank,
  the number of blocks is the number of maximal runs of lines that are neither barrier
  lines nor blank.
\<close>

theorem line_sets_count:
  "length (line_sets lines) = count_runs (\<lambda>z. \<not> is_wait z) lines
   \<and> [] \<notin> set (line_sets lines)
   \<and> (list_all (\<lambda>z. \<not> is_blank z) lines \<longrightarrow>
        length (line_sets lines) = count_runs task_line lines)"
proof (intro conjI impI)
  show "length (line_sets lines) = count_runs (\<lambda>z. \<not> is_wait z) lines"
    by (rule line_sets_length)
  show "[] \<notin> set (line_sets lines)"
    by (rule line_sets_no_empty)
  assume "list_all (\<lambda>z. \<not> is_blank z) lines"
  then have "list_all (\<lambda>z. (\<not> is_wait z) = task_line z) lines"
    by (simp add: list_all_iff task_line_def)
  from count_runs_cong [OF this] show "length (line_sets lines) = count_runs task_line lines"
    by (simp add: line_sets_length)
qed

theorem line_sets_count_witness:
  "list_all (\<lambda>z. \<not> is_blank z) [''a'', ''wait'', ''b'']
   \<and> length (line_sets [''a'', ''wait'', ''b'']) = count_runs task_line [''a'', ''wait'', ''b'']"
proof -
  have h: "list_all (\<lambda>z. \<not> is_blank z) [''a'', ''wait'', ''b'']"
    by code_simp
  with line_sets_count [of "[''a'', ''wait'', ''b'']"] show ?thesis
    by blast
qed

text \<open>
  C3, as the claim states it, fails on a blank line between two barrier lines: the code
  produces one block, which holds the blank line, where the claim counts no run.
\<close>

theorem line_sets_count_counterexample:
  "line_sets [''wait\<newline>'', ''\<newline>'', ''wait\<newline>''] = [[''\<newline>'']]
   \<and> count_runs task_line [''wait\<newline>'', ''\<newline>'', ''wait\<newline>''] = 0
   \<and> length (line_sets [''wait\<newline>'', ''\<newline>'', ''wait\<newline>''])
       \<noteq> count_runs task_line [''wait\<newline>'', ''\<newline>'', ''wait\<newline>'']"
  by code_simp

text \<open>
  C4: a line is a barrier exactly when its trimmed, case-folded value is \<^verbatim>\<open>wait\<close>
  (\<^verbatim>\<open>WAIT\<close> and \<^verbatim>\<open> wait \<close> are barriers); the blocks, put end to end, are the
  lines that are not barriers, in the order of the file, so a barrier line is in no
  block; no block is empty; a barrier line separates the blocks before it from the
  blocks after it, and a second barrier line right after it changes nothing. Only a
  barrier line separates: a non-empty stretch of lines without a barrier line is one
  block, whole and in its order, and no lines give no block. With the separation at a
  barrier line this fixes the blocks of every file: they are the maximal runs of lines
  that are not barriers, in the order of the file.
\<close>

theorem barrier_lines:
  "(is_wait z \<longleftrightarrow> py_lower (py_strip z) = ''wait'')
   \<and> is_wait ''WAIT'' \<and> is_wait '' wait ''
   \<and> concat (line_sets lines) = filter (\<lambda>z. \<not> is_wait z) lines
   \<and> [] \<notin> set (line_sets lines)
   \<and> (is_wait w \<longrightarrow> line_sets (xs @ w # ys) = line_sets xs @ line_sets ys)
   \<and> (is_wait w \<longrightarrow> is_wait w' \<longrightarrow> line_sets (xs @ w # w' # ys) = line_sets (xs @ w # ys))
   \<and> line_sets [] = []
   \<and> (run \<noteq> [] \<and> list_all (\<lambda>z. \<not> is_wait z) run \<longrightarrow> line_sets run = [run])
   \<and> (run \<noteq> [] \<and> list_all (\<lambda>z. \<not> is_wait z) run \<and> is_wait w \<longrightarrow>
        line_sets (run @ w # ys) = run # line_sets ys)"
proof (intro conjI impI)
  show "is_wait z \<longleftrightarrow> py_lower (py_strip z) = ''wait''"
    by (simp add: is_wait_def strip_lower)
  show "line_sets [] = []" by (rule line_sets_Nil)
  show "line_sets run = [run]" if "run \<noteq> [] \<and> list_all (\<lambda>z. \<not> is_wait z) run"
    using that by (intro line_sets_single) simp_all
  show "line_sets (run @ w # ys) = run # line_sets ys"
    if "run \<noteq> [] \<and> list_all (\<lambda>z. \<not> is_wait z) run \<and> is_wait w"
  proof -
    from that have "line_sets run = [run]" by (intro line_sets_single) simp_all
    with that show ?thesis by (simp add: line_sets_barrier)
  qed
  show "is_wait ''WAIT''" by code_simp
  show "is_wait '' wait ''" by code_simp
  show "concat (line_sets lines) = filter (\<lambda>z. \<not> is_wait z) lines"
    by (rule line_sets_concat)
  show "[] \<notin> set (line_sets lines)"
    by (rule line_sets_no_empty)
  show "line_sets (xs @ w # ys) = line_sets xs @ line_sets ys" if "is_wait w"
    using that by (rule line_sets_barrier)
  show "line_sets (xs @ w # w' # ys) = line_sets (xs @ w # ys)" if "is_wait w" "is_wait w'"
    using that by (simp add: line_sets_barrier line_sets_wait)
qed

theorem barrier_lines_witness:
  "is_wait ''wait\<newline>'' \<and> is_wait ''Wait''
   \<and> line_sets ([''a''] @ ''wait\<newline>'' # ''Wait'' # [''b''])
       = line_sets ([''a''] @ ''wait\<newline>'' # [''b''])
   \<and> line_sets ([''a''] @ ''wait\<newline>'' # [''b'']) = line_sets [''a''] @ line_sets [''b'']
   \<and> [''a'', ''b''] \<noteq> [] \<and> list_all (\<lambda>z. \<not> is_wait z) [''a'', ''b'']
   \<and> line_sets [''a'', ''b''] = [[''a'', ''b'']]
   \<and> line_sets ([''a'', ''b''] @ ''wait\<newline>'' # [''c'', ''d''])
       = [''a'', ''b''] # line_sets [''c'', ''d'']
   \<and> line_sets [''c'', ''d''] = [[''c'', ''d'']]"
proof -
  have w1: "is_wait ''wait\<newline>''" by code_simp
  have w2: "is_wait ''Wait''" by code_simp
  have r1: "[''a'', ''b''] \<noteq> [] \<and> list_all (\<lambda>z. \<not> is_wait z) [''a'', ''b'']"
    by code_simp
  have r2: "[''c'', ''d''] \<noteq> [] \<and> list_all (\<lambda>z. \<not> is_wait z) [''c'', ''d'']"
    by code_simp
  from barrier_lines [where w = "''wait\<newline>''" and w' = "''Wait''" and xs = "[''a'']"
      and ys = "[''b'']"] w1 w2
  have 1: "line_sets ([''a''] @ ''wait\<newline>'' # ''Wait'' # [''b''])
       = line_sets ([''a''] @ ''wait\<newline>'' # [''b''])"
    and 2: "line_sets ([''a''] @ ''wait\<newline>'' # [''b'']) = line_sets [''a''] @ line_sets [''b'']"
    by blast+
  from barrier_lines [where run = "[''a'', ''b'']" and w = "''wait\<newline>''"
      and ys = "[''c'', ''d'']"] r1 w1
  have 3: "line_sets [''a'', ''b''] = [[''a'', ''b'']]"
    and 4: "line_sets ([''a'', ''b''] @ ''wait\<newline>'' # [''c'', ''d''])
       = [''a'', ''b''] # line_sets [''c'', ''d'']"
    by blast+
  from barrier_lines [where run = "[''c'', ''d'']"] r2
  have 5: "line_sets [''c'', ''d''] = [[''c'', ''d'']]" by blast
  from w1 w2 1 2 r1 3 4 5 show ?thesis by (intro conjI) simp_all
qed

subsection \<open>The lexer and the loop over the tokens\<close>




lemma py_split_no_sep: "sep \<notin> set s \<Longrightarrow> py_split sep s = [s]"
  by (induction s) auto

lemma py_split_one_sep: "sep \<notin> set k \<Longrightarrow> py_split sep (k @ sep # v) = k # py_split sep v"
  by (induction k) auto

lemma kv_simple:
  "CHR ''='' \<notin> set k \<Longrightarrow> CHR ''='' \<notin> set v \<Longrightarrow> kv (k @ CHR ''='' # v) = Some (k, v)"
  by (simp add: kv_def py_split_one_sep py_split_no_sep)

lemma add_pairs_kv:
  "kv pair = Some (param, v) \<Longrightarrow>
   add_pairs (pair # pairs) d =
     add_pairs pairs (AList.update (stored_key param) (strip_value v) d)"
  by (auto simp: kv_def stored_key_def split: list.splits)


text \<open>
  When every token is of the form key=value the loop ends with a dictionary that
  holds, for every stored key, the stripped value of the last token stored under it.
\<close>

lemma add_pairs_ok:
  "map kv pairs = map Some kvs \<Longrightarrow>
   \<exists>d'. add_pairs pairs d = Inr d' \<and>
     (\<forall>K. map_of d' K =
       (case map_of (rev (map (\<lambda>(k, v). (stored_key k, strip_value v)) kvs)) K of
          Some x \<Rightarrow> Some x | None \<Rightarrow> map_of d K)) \<and>
     (distinct (map fst d) \<longrightarrow> distinct (map fst d'))"
proof (induction pairs arbitrary: d kvs)
  case Nil
  then show ?case by simp
next
  case (Cons pair pairs)
  then obtain k v kvs' where kvs: "kvs = (k, v) # kvs'" and p: "kv pair = Some (k, v)"
    and rest: "map kv pairs = map Some kvs'" by (cases kvs) auto
  from Cons.IH [OF rest, of "AList.update (stored_key k) (strip_value v) d"]
  obtain d' where d': "add_pairs pairs (AList.update (stored_key k) (strip_value v) d) = Inr d'"
    and m: "\<And>K. map_of d' K =
       (case map_of (rev (map (\<lambda>(k, v). (stored_key k, strip_value v)) kvs')) K of
          Some x \<Rightarrow> Some x
        | None \<Rightarrow> map_of (AList.update (stored_key k) (strip_value v) d) K)"
    and dist: "distinct (map fst (AList.update (stored_key k) (strip_value v) d)) \<longrightarrow>
       distinct (map fst d')"
    by blast
  have "add_pairs (pair # pairs) d = Inr d'" by (simp only: add_pairs_kv [OF p] d')
  moreover have "map_of d' K =
       (case map_of (rev (map (\<lambda>(k, v). (stored_key k, strip_value v)) kvs)) K of
          Some x \<Rightarrow> Some x | None \<Rightarrow> map_of d K)" for K
    by (simp add: m kvs update_conv' map_add_def split: option.splits)
  moreover have "distinct (map fst d) \<longrightarrow> distinct (map fst d')"
    using dist by (simp add: distinct_update)
  ultimately show ?case by blast
qed

subsection \<open>The loop over the blocks and the logout loop\<close>

lemma returns_simps [simp]: "returns (Inr x)" "\<not> returns (Inl e)"
  by (simp_all add: returns_def)

lemma await_none: "await_futures fs = None \<longleftrightarrow> list_all returns fs"
  by (induction fs rule: await_futures.induct) simp_all

lemma run_all_ok:
  assumes "thread_pool_executor mw = Inr n"
  shows "list_all (list_all (\<lambda>l. returns (execute_line l svcs))) lss \<Longrightarrow>
    run_line_sets mw svcs lss = (map (map (\<lambda>l. execute_line l svcs)) lss, None)"
proof (induction lss)
  case Nil
  then show ?case by simp
next
  case (Cons ls lss)
  then have "await_futures (map (\<lambda>l. execute_line l svcs) ls) = None"
    by (simp add: await_none list_all_iff)
  with Cons assms show ?case by simp
qed


lemma run_no_pool:
  "thread_pool_executor mw = Inl e \<Longrightarrow> lss \<noteq> [] \<Longrightarrow>
   run_line_sets mw svcs lss = ([], Some e)"
  by (cases lss) simp_all

lemma logout_names:
  "fst (logout svcs) =
     map fst (take (Suc (length (takeWhile (\<lambda>(name, tm1). logout_raises tm1 = None) svcs))) svcs)"
  by (induction svcs rule: logout.induct) (auto split: option.splits prod.splits)

lemma logout_all:
  "list_all (\<lambda>(name, tm1). logout_raises tm1 = None) svcs \<Longrightarrow>
   logout svcs = (map fst svcs, None)"
  by (induction svcs rule: logout.induct) (auto split: option.splits prod.splits)

subsection \<open>One line\<close>

lemma execute_line_parsed:
  "\<not> is_blank line \<Longrightarrow> extract_info_from_line line = Inr (i, p, ps) \<Longrightarrow>
   execute_line line svcs =
     (case map_of svcs i of
        None \<Rightarrow> Inr [Log ERROR (NotAccessible p i)]
      | Some tm1 \<Rightarrow>
          Inr ([Log INFO (Executing p ps i), Call i p ps] @
               (case execute tm1 p ps of
                  Elapsed t \<Rightarrow> [Log INFO (ExecutionSuccessful p ps i t)]
                | Raised m \<Rightarrow> [Log ERROR (ExecutionFailed p ps m)])))"
  by (simp add: execute_line_def is_blank_def)


lemma execute_line_returns:
  "is_blank line \<or> returns (extract_info_from_line line) \<Longrightarrow>
   returns (execute_line line svcs)"
  by (cases "extract_info_from_line line")
     (auto simp: execute_line_def is_blank_def split: option.splits prod.splits)

lemma execute_line_call:
  "execute_line line svcs = Inr evs \<Longrightarrow> Call i p ps \<in> set evs \<Longrightarrow> map_of svcs i \<noteq> None"
  by (auto simp: execute_line_def
      split: if_splits sum.splits option.splits prod.splits response.splits)


subsection \<open>The main block\<close>

lemma main_built:
  assumes "translate_cmd_arguments ev argv = Inr (path, mw)" "setup_tm1_services ev = Inr svcs"
  shows "main ev argv =
     \<lparr>registry = Some svcs, blocks = fst (work_through_tasks ev path mw svcs),
      logged_out = fst (logout svcs),
      raised = (case snd (logout svcs) of Some e \<Rightarrow> Some e
                | None \<Rightarrow> snd (work_through_tasks ev path mw svcs))\<rparr>"
  using assms
  by (cases "work_through_tasks ev path mw svcs"; cases "logout svcs")
     (simp add: main_def split: option.splits)

lemma translate_example:
  "py_isdigit mw \<Longrightarrow>
   translate_cmd_arguments (example_env lines svcs) (example_argv mw) = Inr (''tasks.txt'', mw)"
  by (simp add: translate_cmd_arguments_def example_env_def example_argv_def)

subsection \<open>What \<^verbatim>\<open>extract_info_from_line\<close> returns\<close>


lemma lower_instance: "py_lower ''instance'' = ''instance''"
  by code_simp

lemma lower_process: "py_lower ''process'' = ''process''"
  by code_simp








lemma extract_from_dict:
  assumes "shlex_split line = Inr toks" "add_pairs toks [] = Inr d"
    "map_of d ''instance'' = Some i" "map_of d ''process'' = Some p"
  shows "extract_info_from_line line =
     Inr (i, p, AList.delete ''process'' (AList.delete ''instance'' d))"
  using assms by (simp add: extract_info_from_line_def dict_pop_def delete_conv')




lemma dict_of_tokens:
  assumes "map kv toks = map Some kvs"
  obtains d where "add_pairs toks [] = Inr d"
    "\<And>K. map_of d K = map_of (rev (map (\<lambda>(k, v). (stored_key k, strip_value v)) kvs)) K"
    "distinct (map fst d)"
proof -
  from add_pairs_ok [OF assms, of "[]"] obtain d where
    "add_pairs toks [] = Inr d"
    "\<forall>K. map_of d K =
       (case map_of (rev (map (\<lambda>(k, v). (stored_key k, strip_value v)) kvs)) K of
          Some x \<Rightarrow> Some x | None \<Rightarrow> map_of [] K)"
    "distinct (map fst d)" by auto
  then show ?thesis by (intro that [of d]) (auto split: option.splits)
qed







lemma extract_last_occurrence:
  assumes sh: "shlex_split line = Inr toks"
    and kvs: "map kv toks = map Some (pre @ (k, v) # post)"
    and last: "stored_key k \<notin> set (map (\<lambda>(k, v). stored_key k) post)"
    and inst: "''instance'' \<in> set (map (\<lambda>(k, v). stored_key k) (pre @ (k, v) # post))"
    and proc: "''process'' \<in> set (map (\<lambda>(k, v). stored_key k) (pre @ (k, v) # post))"
  shows "\<exists>i p ps. extract_info_from_line line = Inr (i, p, ps) \<and> distinct (map fst ps)
     \<and> (if stored_key k = ''instance'' then i = strip_value v
         else if stored_key k = ''process'' then p = strip_value v
         else map_of ps k = Some (strip_value v))"
proof -
  let ?kvs = "pre @ (k, v) # post"
  let ?st = "\<lambda>kvs. map (\<lambda>(k, v). (stored_key k, strip_value v)) kvs"
  from dict_of_tokens [OF kvs] obtain d where d: "add_pairs toks [] = Inr d"
    and m: "\<And>K. map_of d K = map_of (rev (?st ?kvs)) K" and dist: "distinct (map fst d)"
    by blast
  have keys: "fst ` set (rev (?st ?kvs)) = set (map (\<lambda>(k, v). stored_key k) ?kvs)"
    by (force simp: image_iff)
  have "map_of (rev (?st post)) (stored_key k) = None"
    using last by (force simp: map_of_eq_None_iff image_iff)
  then have here: "map_of d (stored_key k) = Some (strip_value v)"
    by (simp add: m map_add_def)
  have "map_of d ''instance'' \<noteq> None"
    unfolding m map_of_eq_None_iff keys using inst by simp
  then obtain i where i: "map_of d ''instance'' = Some i" by blast
  have "map_of d ''process'' \<noteq> None"
    unfolding m map_of_eq_None_iff keys using proc by simp
  then obtain p where p: "map_of d ''process'' = Some p" by blast
  let ?ps = "AList.delete ''process'' (AList.delete ''instance'' d)"
  have ex: "extract_info_from_line line = Inr (i, p, ?ps)"
    by (rule extract_from_dict [OF sh d i p])
  have dps: "distinct (map fst ?ps)" using dist by (simp add: distinct_delete)
  have "if stored_key k = ''instance'' then i = strip_value v
         else if stored_key k = ''process'' then p = strip_value v
         else map_of ?ps k = Some (strip_value v)"
  proof (cases "py_lower k = ''instance'' \<or> py_lower k = ''process''")
    case True
    then show ?thesis using here i p by (auto simp: stored_key_def)
  next
    case False
    then have "stored_key k = k" "k \<noteq> ''instance''" "k \<noteq> ''process''"
      using lower_instance lower_process by (auto simp: stored_key_def)
    then show ?thesis using here by (simp add: delete_conv')
  qed
  with ex dps show ?thesis by blast
qed


subsection \<open>Tasks and their outcomes\<close>

text \<open>
  C5: when the remote call of a task raises, the exception is caught inside
  \<^verbatim>\<open>execute_line\<close>: the call returns, having logged the dispatch, issued the call and
  logged \<^verbatim>\<open>Execution Failed\<close> at level error with the message of the exception; when
  the remote call succeeds, the terminal record is \<^verbatim>\<open>Execution Successful\<close> at level
  info with the elapsed time of the response. Whatever the remote calls do, a file whose
  lines are all blank or parse runs through all its blocks, every line of every block
  executed, and the loop ends without an exception.
\<close>

theorem remote_outcome:
  "(\<not> is_blank line \<and> extract_info_from_line line = Inr (i, p, ps) \<and> map_of svcs i = Some tm
      \<longrightarrow> (execute tm p ps = Raised m \<longrightarrow>
             execute_line line svcs =
               Inr [Log INFO (Executing p ps i), Call i p ps, Log ERROR (ExecutionFailed p ps m)])
        \<and> (execute tm p ps = Elapsed t \<longrightarrow>
             execute_line line svcs =
               Inr [Log INFO (Executing p ps i), Call i p ps,
                    Log INFO (ExecutionSuccessful p ps i t)]))
   \<and> (thread_pool_executor mw = Inr n
        \<and> list_all (list_all (\<lambda>l. is_blank l \<or> returns (extract_info_from_line l))) lss
      \<longrightarrow> run_line_sets mw svcs lss = (map (map (\<lambda>l. execute_line l svcs)) lss, None))"
proof (intro conjI impI)
  assume "thread_pool_executor mw = Inr n
        \<and> list_all (list_all (\<lambda>l. is_blank l \<or> returns (extract_info_from_line l))) lss"
  then have tp: "thread_pool_executor mw = Inr n"
    and "list_all (list_all (\<lambda>l. returns (execute_line l svcs))) lss"
    by (auto simp: list_all_iff intro: execute_line_returns)
  then show "run_line_sets mw svcs lss = (map (map (\<lambda>l. execute_line l svcs)) lss, None)"
    by (rule run_all_ok)
qed (simp_all add: execute_line_parsed)

theorem remote_outcome_witness:
  \<open>execute_line ''instance="B" process="P1" pWaitSec=2'' [(''A'', tm1_ok), (''B'', tm1_failing)]
     = Inr [Log INFO (Executing ''P1'' [(''pWaitSec'', ''2'')] ''B''),
            Call ''B'' ''P1'' [(''pWaitSec'', ''2'')],
            Log ERROR (ExecutionFailed ''P1'' [(''pWaitSec'', ''2'')] ''process not found'')]
   \<and> execute_line ''instance="A" process="P1" pWaitSec=2'' [(''A'', tm1_ok), (''B'', tm1_failing)]
     = Inr [Log INFO (Executing ''P1'' [(''pWaitSec'', ''2'')] ''A''),
            Call ''A'' ''P1'' [(''pWaitSec'', ''2'')],
            Log INFO (ExecutionSuccessful ''P1'' [(''pWaitSec'', ''2'')] ''A'' 0)]
   \<and> run_line_sets ''1'' [(''A'', tm1_ok), (''B'', tm1_failing)]
        [[''instance="B" process="P1" pWaitSec=2'', ''instance="A" process="P1" pWaitSec=2''],
         [''\<newline>'', ''instance="A" process="P1" pWaitSec=2'']]
     = (map (map (\<lambda>l. execute_line l [(''A'', tm1_ok), (''B'', tm1_failing)]))
        [[''instance="B" process="P1" pWaitSec=2'', ''instance="A" process="P1" pWaitSec=2''],
         [''\<newline>'', ''instance="A" process="P1" pWaitSec=2'']], None)\<close>
proof -
  let ?svcs = "[(''A'', tm1_ok), (''B'', tm1_failing)]"
  let ?lb = \<open>''instance="B" process="P1" pWaitSec=2''\<close>
  let ?la = \<open>''instance="A" process="P1" pWaitSec=2''\<close>
  have nb: "\<not> is_blank ?lb" "\<not> is_blank ?la" by code_simp+
  have eb: "extract_info_from_line ?lb = Inr (''B'', ''P1'', [(''pWaitSec'', ''2'')])"
    by code_simp
  have ea: "extract_info_from_line ?la = Inr (''A'', ''P1'', [(''pWaitSec'', ''2'')])"
    by code_simp
  have mb: "map_of ?svcs ''B'' = Some tm1_failing" and ma: "map_of ?svcs ''A'' = Some tm1_ok"
    by simp_all
  have xb: "execute tm1_failing ''P1'' [(''pWaitSec'', ''2'')] = Raised ''process not found''"
    by (simp add: tm1_failing_def always_raised_def)
  have xa: "execute tm1_ok ''P1'' [(''pWaitSec'', ''2'')] = Elapsed 0"
    by (simp add: tm1_ok_def always_elapsed_def)
  have tp: "thread_pool_executor ''1'' = Inr 1" by code_simp
  have bl: "is_blank ''\<newline>''" by code_simp
  have all: "list_all (list_all (\<lambda>l. is_blank l \<or> returns (extract_info_from_line l)))
      [[?lb, ?la], [''\<newline>'', ?la]]"
    using ea eb bl by simp
  from remote_outcome [where line = ?lb and i = "''B''" and p = "''P1''"
      and ps = "[(''pWaitSec'', ''2'')]" and svcs = ?svcs and tm = tm1_failing
      and m = "''process not found''"] nb eb mb xb
  have 1: "execute_line ?lb ?svcs
     = Inr [Log INFO (Executing ''P1'' [(''pWaitSec'', ''2'')] ''B''),
            Call ''B'' ''P1'' [(''pWaitSec'', ''2'')],
            Log ERROR (ExecutionFailed ''P1'' [(''pWaitSec'', ''2'')] ''process not found'')]"
    by blast
  from remote_outcome [where line = ?la and i = "''A''" and p = "''P1''"
      and ps = "[(''pWaitSec'', ''2'')]" and svcs = ?svcs and tm = tm1_ok and t = 0] nb ea ma xa
  have 2: "execute_line ?la ?svcs
     = Inr [Log INFO (Executing ''P1'' [(''pWaitSec'', ''2'')] ''A''),
            Call ''A'' ''P1'' [(''pWaitSec'', ''2'')],
            Log INFO (ExecutionSuccessful ''P1'' [(''pWaitSec'', ''2'')] ''A'' 0)]"
    by blast
  from remote_outcome [where mw = "''1''" and n = 1 and svcs = ?svcs
      and lss = "[[?lb, ?la], [''\<newline>'', ?la]]"] tp all
  have 3: "run_line_sets ''1'' ?svcs [[?lb, ?la], [''\<newline>'', ?la]]
     = (map (map (\<lambda>l. execute_line l ?svcs)) [[?lb, ?la], [''\<newline>'', ?la]], None)"
    by blast
  from 1 2 3 show ?thesis by (intro conjI)
qed

text \<open>
  C6: a task whose instance is not a key of the registry logs, at level error, that the
  process was not executed because the instance is not accessible, and does nothing
  else: no remote call is issued. More generally, every remote call that a line issues
  goes to an instance of the registry.
\<close>

theorem instance_not_accessible:
  "(\<not> is_blank line \<and> extract_info_from_line line = Inr (i, p, ps) \<and> map_of svcs i = None
      \<longrightarrow> execute_line line svcs = Inr [Log ERROR (NotAccessible p i)])
   \<and> (execute_line line' svcs = Inr evs \<and> Call i' p' ps' \<in> set evs \<longrightarrow> map_of svcs i' \<noteq> None)"
  by (auto simp: execute_line_parsed dest: execute_line_call)

theorem instance_not_accessible_witness:
  \<open>\<not> is_blank ''instance="B" process="P2"''
   \<and> extract_info_from_line ''instance="B" process="P2"'' = Inr (''B'', ''P2'', [])
   \<and> map_of [(''A'', tm1_ok)] ''B'' = None
   \<and> execute_line ''instance="B" process="P2"'' [(''A'', tm1_ok)]
       = Inr [Log ERROR (NotAccessible ''P2'' ''B'')]
   \<and> execute_line ''instance="A" process="P2"'' [(''A'', tm1_ok)]
       = Inr [Log INFO (Executing ''P2'' [] ''A''), Call ''A'' ''P2'' [],
              Log INFO (ExecutionSuccessful ''P2'' [] ''A'' 0)]
   \<and> map_of [(''A'', tm1_ok)] ''A'' \<noteq> None\<close>
proof -
  let ?lb = \<open>''instance="B" process="P2"''\<close>
  let ?la = \<open>''instance="A" process="P2"''\<close>
  have a: "\<not> is_blank ?lb" by code_simp
  have b: "extract_info_from_line ?lb = Inr (''B'', ''P2'', [])" by code_simp
  have c: "map_of [(''A'', tm1_ok)] ''B'' = None" by simp
  from instance_not_accessible [where line = ?lb and i = "''B''" and p = "''P2''" and ps = "[]"
      and svcs = "[(''A'', tm1_ok)]"] a b c
  have 1: "execute_line ?lb [(''A'', tm1_ok)] = Inr [Log ERROR (NotAccessible ''P2'' ''B'')]"
    by blast
  have nb: "\<not> is_blank ?la" by code_simp
  have ea: "extract_info_from_line ?la = Inr (''A'', ''P2'', [])" by code_simp
  have 2: "execute_line ?la [(''A'', tm1_ok)]
       = Inr [Log INFO (Executing ''P2'' [] ''A''), Call ''A'' ''P2'' [],
              Log INFO (ExecutionSuccessful ''P2'' [] ''A'' 0)]"
    by (simp add: execute_line_parsed [OF nb ea] tm1_ok_def always_elapsed_def)
  from instance_not_accessible [where line' = ?la and i' = "''A''" and p' = "''P2''"
      and ps' = "[]" and svcs = "[(''A'', tm1_ok)]"
      and evs = "[Log INFO (Executing ''P2'' [] ''A''), Call ''A'' ''P2'' [],
              Log INFO (ExecutionSuccessful ''P2'' [] ''A'' 0)]"] 2
  have 3: "map_of [(''A'', tm1_ok)] ''A'' \<noteq> None" by simp
  from a b c 1 2 3 show ?thesis by (intro conjI)
qed

subsection \<open>Parsing a line\<close>




text \<open>
  C10: when a line holds a key more than once (the keys \<^verbatim>\<open>instance\<close> and
  \<^verbatim>\<open>process\<close> compared without regard to case, every other key as written), parsing
  raises nothing on that account and the value that comes out for the key is the one of
  its last occurrence, whatever stands before it; the parameter dictionary holds each
  key once.
\<close>

theorem last_occurrence_wins:
  "shlex_split line = Inr toks
   \<and> map kv toks = map Some (pre @ (k, v) # post)
   \<and> stored_key k \<notin> set (map (\<lambda>(k, v). stored_key k) post)
   \<and> ''instance'' \<in> set (map (\<lambda>(k, v). stored_key k) (pre @ (k, v) # post))
   \<and> ''process'' \<in> set (map (\<lambda>(k, v). stored_key k) (pre @ (k, v) # post))
   \<longrightarrow> (\<exists>i p ps. extract_info_from_line line = Inr (i, p, ps) \<and> distinct (map fst ps)
         \<and> (if stored_key k = ''instance'' then i = strip_value v
            else if stored_key k = ''process'' then p = strip_value v
            else map_of ps k = Some (strip_value v)))"
proof
  assume "shlex_split line = Inr toks
   \<and> map kv toks = map Some (pre @ (k, v) # post)
   \<and> stored_key k \<notin> set (map (\<lambda>(k, v). stored_key k) post)
   \<and> ''instance'' \<in> set (map (\<lambda>(k, v). stored_key k) (pre @ (k, v) # post))
   \<and> ''process'' \<in> set (map (\<lambda>(k, v). stored_key k) (pre @ (k, v) # post))"
  then have a: "shlex_split line = Inr toks"
    "map kv toks = map Some (pre @ (k, v) # post)"
    "stored_key k \<notin> set (map (\<lambda>(k, v). stored_key k) post)"
    "''instance'' \<in> set (map (\<lambda>(k, v). stored_key k) (pre @ (k, v) # post))"
    "''process'' \<in> set (map (\<lambda>(k, v). stored_key k) (pre @ (k, v) # post))"
    by blast+
  show "\<exists>i p ps. extract_info_from_line line = Inr (i, p, ps) \<and> distinct (map fst ps)
         \<and> (if stored_key k = ''instance'' then i = strip_value v
            else if stored_key k = ''process'' then p = strip_value v
            else map_of ps k = Some (strip_value v))"
    by (rule extract_last_occurrence [OF a])
qed

theorem last_occurrence_wins_witness:
  \<open>\<exists>i p ps. extract_info_from_line ''instance=A process=P1 pX=1 Instance=B pX=2 px=3''
       = Inr (i, p, ps)
     \<and> i = strip_value ''B'' \<and> map_of ps ''pX'' = Some (strip_value ''2'')\<close>
proof -
  let ?line = "''instance=A process=P1 pX=1 Instance=B pX=2 px=3''"
  let ?toks = "[''instance=A'', ''process=P1'', ''pX=1'', ''Instance=B'', ''pX=2'', ''px=3'']"
  have sh: "shlex_split ?line = Inr ?toks" by code_simp
  have kvs1: "map kv ?toks = map Some ([(''instance'', ''A''), (''process'', ''P1''), (''pX'', ''1'')]
      @ (''Instance'', ''B'') # [(''pX'', ''2''), (''px'', ''3'')])"
    by code_simp
  have kvs2: "map kv ?toks = map Some ([(''instance'', ''A''), (''process'', ''P1''), (''pX'', ''1''),
      (''Instance'', ''B'')] @ (''pX'', ''2'') # [(''px'', ''3'')])"
    by code_simp
  have sk: "stored_key ''instance'' = ''instance''" "stored_key ''process'' = ''process''"
    "stored_key ''Instance'' = ''instance''" "stored_key ''pX'' = ''pX''"
    "stored_key ''px'' = ''px''"
    by code_simp+
  from last_occurrence_wins [where line = ?line and toks = ?toks
      and pre = "[(''instance'', ''A''), (''process'', ''P1''), (''pX'', ''1'')]"
      and k = "''Instance''" and v = "''B''" and post = "[(''pX'', ''2''), (''px'', ''3'')]"]
    sh kvs1
  obtain i p ps where 1: "extract_info_from_line ?line = Inr (i, p, ps)" "i = strip_value ''B''"
    by (auto simp: sk)
  from last_occurrence_wins [where line = ?line and toks = ?toks
      and pre = "[(''instance'', ''A''), (''process'', ''P1''), (''pX'', ''1''), (''Instance'', ''B'')]"
      and k = "''pX''" and v = "''2''" and post = "[(''px'', ''3'')]"]
    sh kvs2
  obtain i' p' ps' where 2: "extract_info_from_line ?line = Inr (i', p', ps')"
    "map_of ps' ''pX'' = Some (strip_value ''2'')"
    by (auto simp: sk)
  from 1 2 show ?thesis by simp
qed

subsection \<open>Malformed lines\<close>





subsection \<open>Logout and the command line\<close>

text \<open>
  Once the command line is accepted and the registry is built, the logout loop is run
  whatever the loop over the blocks did, an exception included; when no \<^verbatim>\<open>logout\<close>
  call raises, \<^verbatim>\<open>logout\<close> is invoked on every instance of the registry, in order.
\<close>

lemma logout_loop_reached:
  "translate_cmd_arguments ev argv = Inr (path, mw) \<and> setup_tm1_services ev = Inr svcs \<longrightarrow>
     registry (main ev argv) = Some svcs
     \<and> logged_out (main ev argv) = fst (logout svcs)
     \<and> (list_all (\<lambda>(name, tm). logout_raises tm = None) svcs \<longrightarrow>
          logged_out (main ev argv) = map fst svcs)"
  by (auto simp: main_built logout_all)

lemma logout_after_failed_block:
  "raised (main (example_env missing_instance_file [(''A'', tm1_ok), (''B'', tm1_failing)])
        (example_argv ''2''))
       = Some (KeyError ''instance'')
   \<and> logged_out (main (example_env missing_instance_file [(''A'', tm1_ok), (''B'', tm1_failing)])
        (example_argv ''2''))
       = [''A'', ''B'']"
proof -
  let ?svcs = "[(''A'', tm1_ok), (''B'', tm1_failing)]"
  let ?ev = "example_env missing_instance_file ?svcs"
  have d: "py_isdigit ''2''" by code_simp
  have a: "translate_cmd_arguments ?ev (example_argv ''2'') = Inr (''tasks.txt'', ''2'')"
    by (rule translate_example [OF d])
  have b: "setup_tm1_services ?ev = Inr ?svcs" by (simp add: example_env_def)
  have c: "list_all (\<lambda>(name, tm). logout_raises tm = None) ?svcs"
    by (simp add: tm1_ok_def tm1_failing_def)
  have r: "raised (main ?ev (example_argv ''2'')) = Some (KeyError ''instance'')"
    by code_simp
  from logout_loop_reached [where ev = ?ev and argv = "example_argv ''2''"
      and path = "''tasks.txt''" and mw = "''2''" and svcs = ?svcs] a b c
  have "logged_out (main ?ev (example_argv ''2'')) = map fst ?svcs" by blast
  with r show ?thesis by simp
qed

text \<open>
  C8: on every exit path after the registry is built \<^verbatim>\<open>logout\<close> is to be invoked on
  every instance of the registry, and the docstring of \<^verbatim>\<open>logout\<close> says
  \<^verbatim>\<open>logout from all instances\<close>. The code does not do that when a \<^verbatim>\<open>logout\<close> call
  raises: with the registry \<^verbatim>\<open>A\<close>, \<^verbatim>\<open>B\<close>, an empty task file and a \<^verbatim>\<open>logout\<close>
  of \<^verbatim>\<open>A\<close> that raises, the exception leaves the loop of line 159, \<^verbatim>\<open>logout\<close> is
  never invoked on \<^verbatim>\<open>B\<close>, and the run, whose blocks raised nothing, ends with the
  exception of the \<^verbatim>\<open>logout\<close> call.
\<close>

theorem logout_skips_remaining:
  "registry (main (example_env [] [(''A'', tm1_stale), (''B'', tm1_ok)]) (example_argv ''2''))
     = Some [(''A'', tm1_stale), (''B'', tm1_ok)]
   \<and> blocks (main (example_env [] [(''A'', tm1_stale), (''B'', tm1_ok)]) (example_argv ''2''))
       = []
   \<and> logged_out (main (example_env [] [(''A'', tm1_stale), (''B'', tm1_ok)]) (example_argv ''2''))
       = [''A'']
   \<and> raised (main (example_env [] [(''A'', tm1_stale), (''B'', tm1_ok)]) (example_argv ''2''))
       = Some (LogoutError ''session expired'')"
proof -
  let ?svcs = "[(''A'', tm1_stale), (''B'', tm1_ok)]"
  let ?ev = "example_env [] ?svcs"
  have d: "py_isdigit ''2''" by code_simp
  have a: "translate_cmd_arguments ?ev (example_argv ''2'') = Inr (''tasks.txt'', ''2'')"
    by (rule translate_example [OF d])
  have b: "setup_tm1_services ?ev = Inr ?svcs" by (simp add: example_env_def)
  have "registry (main ?ev (example_argv ''2'')) = Some ?svcs"
    by (simp add: main_built [OF a b])
  moreover have "blocks (main ?ev (example_argv ''2'')) = []"
    by code_simp
  moreover have "logged_out (main ?ev (example_argv ''2'')) = [''A'']"
    by code_simp
  moreover have "raised (main ?ev (example_argv ''2'')) = Some (LogoutError ''session expired'')"
    by code_simp
  ultimately show ?thesis by simp
qed

lemma pool_of_zero: "thread_pool_executor ''0'' = Inl MaxWorkersError"
  by code_simp

lemma isdigit_zero: "py_isdigit ''0''"
  by code_simp

text \<open>
  C9: \<^verbatim>\<open>translate_cmd_arguments\<close> accepts every string that \<^verbatim>\<open>isdigit\<close> accepts, and
  \<^verbatim>\<open>"0"\<close> is one. With \<^verbatim>\<open>"0"\<close>, an existing file and a configuration that sets up,
  the registry is built and the run fails only when the pool of the first block is
  created: no block is entered, the loop over the blocks ends with the \<^verbatim>\<open>ValueError\<close>
  of \<^verbatim>\<open>ThreadPoolExecutor\<close>, and the process ends with it unless a \<^verbatim>\<open>logout\<close>
  raises after it.
\<close>

theorem zero_max_workers:
  "py_isdigit ''0''
   \<and> (3 \<le> length argv \<and> isfile ev (argv ! 1) \<and> py_isdigit (argv ! 2)
      \<longrightarrow> translate_cmd_arguments ev argv = Inr (argv ! 1, argv ! 2))
   \<and> (isfile ev path \<and> setup_tm1_services ev = Inr svcs \<and> readlines ev path = Inr lines
        \<and> line_sets lines \<noteq> []
      \<longrightarrow> translate_cmd_arguments ev [prog, path, ''0''] = Inr (path, ''0'')
        \<and> registry (main ev [prog, path, ''0'']) = Some svcs
        \<and> work_through_tasks ev path ''0'' svcs = ([], Some MaxWorkersError)
        \<and> blocks (main ev [prog, path, ''0'']) = []
        \<and> raised (main ev [prog, path, ''0'']) =
            (case snd (logout svcs) of Some e \<Rightarrow> Some e | None \<Rightarrow> Some MaxWorkersError))"
proof (intro conjI impI)
  show "py_isdigit ''0''" by (rule isdigit_zero)
next
  assume "3 \<le> length argv \<and> isfile ev (argv ! 1) \<and> py_isdigit (argv ! 2)"
  then show "translate_cmd_arguments ev argv = Inr (argv ! 1, argv ! 2)"
    by (simp add: translate_cmd_arguments_def)
next
  assume a: "isfile ev path \<and> setup_tm1_services ev = Inr svcs \<and> readlines ev path = Inr lines
        \<and> line_sets lines \<noteq> []"
  then show tr: "translate_cmd_arguments ev [prog, path, ''0''] = Inr (path, ''0'')"
    using isdigit_zero by (simp add: translate_cmd_arguments_def)
  from a have su: "setup_tm1_services ev = Inr svcs" by blast
  from a show w: "work_through_tasks ev path ''0'' svcs = ([], Some MaxWorkersError)"
    by (simp add: work_through_tasks_def run_no_pool [OF pool_of_zero])
  show "registry (main ev [prog, path, ''0'']) = Some svcs"
    by (simp add: main_built [OF tr su])
  show "blocks (main ev [prog, path, ''0'']) = []"
    by (simp add: main_built [OF tr su] w)
  show "raised (main ev [prog, path, ''0'']) =
            (case snd (logout svcs) of Some e \<Rightarrow> Some e | None \<Rightarrow> Some MaxWorkersError)"
    by (simp add: main_built [OF tr su] w split: option.splits)
qed

theorem zero_max_workers_witness:
  \<open>3 \<le> length (example_argv ''0'')
   \<and> isfile (example_env [''instance="A" process="P1"\<newline>''] [(''A'', tm1_ok)]) (example_argv ''0'' ! 1)
   \<and> py_isdigit (example_argv ''0'' ! 2)
   \<and> translate_cmd_arguments (example_env [''instance="A" process="P1"\<newline>''] [(''A'', tm1_ok)])
        (example_argv ''0'')
       = Inr (example_argv ''0'' ! 1, example_argv ''0'' ! 2)
   \<and> line_sets [''instance="A" process="P1"\<newline>''] \<noteq> []
   \<and> work_through_tasks (example_env [''instance="A" process="P1"\<newline>''] [(''A'', tm1_ok)])
        ''tasks.txt'' ''0'' [(''A'', tm1_ok)]
       = ([], Some MaxWorkersError)
   \<and> raised (main (example_env [''instance="A" process="P1"\<newline>''] [(''A'', tm1_ok)])
        [''RushTI.py'', ''tasks.txt'', ''0''])
       = Some MaxWorkersError\<close>
proof -
  let ?lines = \<open>[''instance="A" process="P1"\<newline>'']\<close>
  let ?svcs = "[(''A'', tm1_ok)]"
  let ?ev = "example_env ?lines ?svcs"
  have h1: "3 \<le> length (example_argv ''0'')" by (simp add: example_argv_def)
  have h2: "isfile ?ev (example_argv ''0'' ! 1)" by (simp add: example_env_def example_argv_def)
  have h3: "py_isdigit (example_argv ''0'' ! 2)"
    using isdigit_zero by (simp add: example_argv_def)
  from zero_max_workers [where argv = "example_argv ''0''" and ev = ?ev] h1 h2 h3
  have 1: "translate_cmd_arguments ?ev (example_argv ''0'')
     = Inr (example_argv ''0'' ! 1, example_argv ''0'' ! 2)"
    by blast
  have f: "isfile ?ev ''tasks.txt''" by (simp add: example_env_def)
  have su: "setup_tm1_services ?ev = Inr ?svcs" by (simp add: example_env_def)
  have rl: "readlines ?ev ''tasks.txt'' = Inr ?lines" by (simp add: example_env_def)
  have ne: "line_sets ?lines \<noteq> []" by code_simp
  have lo: "snd (logout ?svcs) = None" by (simp add: tm1_ok_def)
  from zero_max_workers [where ev = ?ev and path = "''tasks.txt''" and svcs = ?svcs
      and lines = ?lines and prog = "''RushTI.py''"] f su rl ne
  have 2: "work_through_tasks ?ev ''tasks.txt'' ''0'' ?svcs = ([], Some MaxWorkersError)"
    and 3: "raised (main ?ev [''RushTI.py'', ''tasks.txt'', ''0'']) =
            (case snd (logout ?svcs) of Some e \<Rightarrow> Some e | None \<Rightarrow> Some MaxWorkersError)"
    by blast+
  from 3 lo have 4: "raised (main ?ev [''RushTI.py'', ''tasks.txt'', ''0'']) = Some MaxWorkersError"
    by simp
  from h1 h2 h3 1 ne 2 4 show ?thesis by (intro conjI)
qed

end
